theory Spec2Isabelle
  imports Complex_Main
begin

section \<open>Python values used by the generator\<close>

text \<open>
  The two exceptions the modelled code can raise: the explicit
  \<^verbatim>\<open>raise ValueError("No measurements available ...")\<close> of \<^verbatim>\<open>quantum_core.py\<close>
  (also what \<^verbatim>\<open>int(str, base)\<close> raises on a malformed string), and the
  \<^verbatim>\<open>ZeroDivisionError\<close> of a Python-level division by zero.
\<close>

datatype py_error = ValueError | ZeroDivisionError

subsection \<open>\<^verbatim>\<open>str(int)\<close>, \<^verbatim>\<open>int(str, base)\<close>, \<^verbatim>\<open>hex(int)\<close>, \<^verbatim>\<open>str.ljust\<close>\<close>

definition digit_char :: "nat \<Rightarrow> char" where
  "digit_char d = ''0123456789abcdef'' ! d"

fun str_nat :: "nat \<Rightarrow> string" where
  "str_nat n = (if n < 10 then [digit_char n] else str_nat (n div 10) @ [digit_char (n mod 10)])"

declare str_nat.simps [simp del]

definition py_str :: "int \<Rightarrow> string" where
  "py_str i = (if i < 0 then CHR ''-'' # str_nat (nat (- i)) else str_nat (nat i))"

fun hex_nat :: "nat \<Rightarrow> string" where
  "hex_nat n = (if n < 16 then [digit_char n] else hex_nat (n div 16) @ [digit_char (n mod 16)])"

declare hex_nat.simps [simp del]

definition py_hex :: "int \<Rightarrow> string" where
  "py_hex i = (if i < 0 then ''-0x'' @ hex_nat (nat (- i)) else ''0x'' @ hex_nat (nat i))"

definition digit_val :: "char \<Rightarrow> nat option" where
  "digit_val c =
     (let k = (of_char c :: nat) in if 48 \<le> k \<and> k \<le> 57 then Some (k - 48) else None)"

fun parse_digits :: "nat \<Rightarrow> string \<Rightarrow> int \<Rightarrow> int option" where
  "parse_digits b [] acc = Some acc"
| "parse_digits b (c # cs) acc =
     (case digit_val c of
        None \<Rightarrow> None
      | Some d \<Rightarrow> if d < b then parse_digits b cs (acc * int b + int d) else None)"

text \<open>
  \<^verbatim>\<open>int(s, b)\<close> for a base \<open>b \<le> 10\<close>, on the strings that \<^verbatim>\<open>str\<close> of an integer and
  \<^verbatim>\<open>ljust(_, '0')\<close> can build: an optional sign followed by at least one digit below the
  base; anything else raises \<^verbatim>\<open>ValueError\<close>. (Python also accepts surrounding white
  space, a base prefix and single underscores between digits; none of them can occur in a
  string made of the characters \<^verbatim>\<open>-0123456789\<close>, and they are not modelled.)
\<close>

definition py_int :: "nat \<Rightarrow> string \<Rightarrow> py_error + int" where
  "py_int b s =
     (case s of
        [] \<Rightarrow> Inl ValueError
      | c # r \<Rightarrow>
          if c = CHR ''-'' then
            (if r = [] then Inl ValueError
             else case parse_digits b r 0 of None \<Rightarrow> Inl ValueError | Some v \<Rightarrow> Inr (- v))
          else if c = CHR ''+'' then
            (if r = [] then Inl ValueError
             else case parse_digits b r 0 of None \<Rightarrow> Inl ValueError | Some v \<Rightarrow> Inr v)
          else (case parse_digits b s 0 of None \<Rightarrow> Inl ValueError | Some v \<Rightarrow> Inr v))"

definition ljust :: "nat \<Rightarrow> char \<Rightarrow> string \<Rightarrow> string" where
  "ljust w c s = s @ replicate (w - length s) c"

section \<open>\<^verbatim>\<open>quantum_core.py\<close>: class \<^verbatim>\<open>QuantumRandomNumberGenerator\<close>\<close>

text \<open>
  The object's state is its two attributes. \<^verbatim>\<open>self.counts\<close> is the dictionary returned by
  the simulator, kept as an association list in the dictionary's iteration order.
\<close>

record qrng =
  measurements :: "int list"
  counts :: "(string \<times> nat) list"

definition init_qrng :: qrng where
  "init_qrng = \<lparr>measurements = [], counts = []\<rparr>"

text \<open>
  The loop of \<^verbatim>\<open>generate_random_bits\<close> over \<^verbatim>\<open>self.counts.items()\<close>:
  \<^verbatim>\<open>bit = int(bitstring); measurements.extend([bit] * count)\<close>.
\<close>

fun expand_counts :: "(string \<times> nat) list \<Rightarrow> int list \<Rightarrow> py_error + int list" where
  "expand_counts [] ms = Inr ms"
| "expand_counts ((bitstring, cnt) # rest) ms =
     (case py_int 10 bitstring of
        Inl e \<Rightarrow> Inl e
      | Inr b \<Rightarrow> expand_counts rest (ms @ replicate cnt b))"

text \<open>
  \<^verbatim>\<open>generate_random_bits\<close>: running the circuit is outside the repository, so the
  dictionary \<^verbatim>\<open>result.get_counts(circuit)\<close> is the argument \<open>sim_counts\<close>. The method
  returns the list and leaves it in \<^verbatim>\<open>self.measurements\<close>.
\<close>

definition generate_random_bits :: "qrng \<Rightarrow> (string \<times> nat) list \<Rightarrow> py_error + (int list \<times> qrng)" where
  "generate_random_bits q sim_counts =
     (case expand_counts sim_counts [] of
        Inl e \<Rightarrow> Inl e
      | Inr ms \<Rightarrow> Inr (ms, q\<lparr>measurements := ms, counts := sim_counts\<rparr>))"

definition to_binary_string :: "qrng \<Rightarrow> py_error + string" where
  "to_binary_string q =
     (if measurements q = [] then Inl ValueError
      else Inr (concat (map py_str (measurements q))))"

definition to_decimal :: "qrng \<Rightarrow> py_error + int" where
  "to_decimal q =
     (case to_binary_string q of
        Inl e \<Rightarrow> Inl e
      | Inr binary_str \<Rightarrow> py_int 2 binary_str)"

definition to_hex :: "qrng \<Rightarrow> py_error + string" where
  "to_hex q =
     (case to_decimal q of
        Inl e \<Rightarrow> Inl e
      | Inr decimal \<Rightarrow> Inr (py_hex decimal))"

text \<open>
  \<^verbatim>\<open>decimal / (2 ** 32)\<close> divides two Python integers; the divisor is not zero and the
  quotient of an integer below \<open>2^32\<close> by \<open>2^32\<close> is exact in a double.
\<close>

definition to_float :: "qrng \<Rightarrow> py_error + real" where
  "to_float q =
     (case to_binary_string q of
        Inl e \<Rightarrow> Inl e
      | Inr binary_str \<Rightarrow>
          (case py_int 2 (take 32 (ljust 32 (CHR ''0'') binary_str)) of
             Inl e \<Rightarrow> Inl e
           | Inr decimal \<Rightarrow> Inr (real_of_int decimal / 2 ^ 32)))"

text \<open>\<^verbatim>\<open>FormatConverter.binary_to_float\<close> of \<^verbatim>\<open>utils.py\<close>, the same steps on a string.\<close>

definition binary_to_float :: "string \<Rightarrow> py_error + real" where
  "binary_to_float binary_str =
     (case py_int 2 (take 32 (ljust 32 (CHR ''0'') binary_str)) of
        Inl e \<Rightarrow> Inl e
      | Inr decimal \<Rightarrow> Inr (real_of_int decimal / 2 ^ 32))"

text \<open>
  What the specification calls a bit sequence: every element is the integer 0 or 1.
\<close>

definition bit_sequence :: "int list \<Rightarrow> bool" where
  "bit_sequence s = list_all (\<lambda>b. b = 0 \<or> b = 1) s"

text \<open>
  The value of a bit sequence read as a base-2 numeral, first bit most significant,
  written from the specification's words and not from the code.
\<close>

definition big_endian_value :: "int list \<Rightarrow> int" where
  "big_endian_value s = (\<Sum>i<length s. s ! i * 2 ^ (length s - 1 - i))"

definition bit_char :: "int \<Rightarrow> char" where
  "bit_char b = (if b = 0 then CHR ''0'' else CHR ''1'')"

section \<open>Floating-point values\<close>

text \<open>
  A float is a finite value or one of the three special values of IEEE arithmetic. The
  finite values are taken as exact reals: rounding, overflow and the sign of zero are not
  modelled. What is modelled exactly is where the special values come from, and the
  difference between the two divisions of the code: a Python-level \<^verbatim>\<open>/\<close> on \<^verbatim>\<open>int\<close> and
  \<^verbatim>\<open>float\<close> operands raises \<^verbatim>\<open>ZeroDivisionError\<close> on a zero divisor, while a division
  with a \<^verbatim>\<open>numpy.float64\<close> operand (the result of \<^verbatim>\<open>np.sqrt\<close>, \<^verbatim>\<open>np.log2\<close> or of a scipy
  function) returns \<^verbatim>\<open>nan\<close> or \<^verbatim>\<open>inf\<close> with a warning and raises nothing.
\<close>

datatype pyfloat = Fin real | PInf | NInf | NaN

definition py_truediv :: "real \<Rightarrow> real \<Rightarrow> py_error + real" where
  "py_truediv a b = (if b = 0 then Inl ZeroDivisionError else Inr (a / b))"

fun fl_neg :: "pyfloat \<Rightarrow> pyfloat" where
  "fl_neg (Fin a) = Fin (- a)"
| "fl_neg PInf = NInf"
| "fl_neg NInf = PInf"
| "fl_neg NaN = NaN"

fun fl_add :: "pyfloat \<Rightarrow> pyfloat \<Rightarrow> pyfloat" where
  "fl_add (Fin a) (Fin b) = Fin (a + b)"
| "fl_add NaN _ = NaN"
| "fl_add _ NaN = NaN"
| "fl_add PInf NInf = NaN"
| "fl_add NInf PInf = NaN"
| "fl_add PInf _ = PInf"
| "fl_add _ PInf = PInf"
| "fl_add NInf _ = NInf"
| "fl_add _ NInf = NInf"

definition fl_sub :: "pyfloat \<Rightarrow> pyfloat \<Rightarrow> pyfloat" where
  "fl_sub x y = fl_add x (fl_neg y)"

fun fl_sign :: "pyfloat \<Rightarrow> int" where
  "fl_sign (Fin a) = (if a > 0 then 1 else if a < 0 then - 1 else 0)"
| "fl_sign PInf = 1"
| "fl_sign NInf = - 1"
| "fl_sign NaN = 0"

definition signed_inf :: "int \<Rightarrow> pyfloat" where
  "signed_inf sg = (if sg = 0 then NaN else if sg > 0 then PInf else NInf)"

fun fl_mul :: "pyfloat \<Rightarrow> pyfloat \<Rightarrow> pyfloat" where
  "fl_mul (Fin a) (Fin b) = Fin (a * b)"
| "fl_mul NaN _ = NaN"
| "fl_mul _ NaN = NaN"
| "fl_mul x y = signed_inf (fl_sign x * fl_sign y)"

text \<open>Division with a \<^verbatim>\<open>numpy.float64\<close> operand; a zero divisor is \<open>+0.0\<close>.\<close>

fun np_truediv :: "pyfloat \<Rightarrow> pyfloat \<Rightarrow> pyfloat" where
  "np_truediv (Fin a) (Fin b) = (if b = 0 then signed_inf (fl_sign (Fin a)) else Fin (a / b))"
| "np_truediv NaN _ = NaN"
| "np_truediv _ NaN = NaN"
| "np_truediv (Fin a) _ = Fin 0"
| "np_truediv x (Fin b) = signed_inf (fl_sign x * (if b < 0 then - 1 else 1))"
| "np_truediv _ _ = NaN"

fun np_sqrt :: "pyfloat \<Rightarrow> pyfloat" where
  "np_sqrt (Fin a) = (if a < 0 then NaN else Fin (sqrt a))"
| "np_sqrt PInf = PInf"
| "np_sqrt NInf = NaN"
| "np_sqrt NaN = NaN"

fun np_log2 :: "pyfloat \<Rightarrow> pyfloat" where
  "np_log2 (Fin a) = (if a > 0 then Fin (log 2 a) else if a = 0 then NInf else NaN)"
| "np_log2 PInf = PInf"
| "np_log2 NInf = NaN"
| "np_log2 NaN = NaN"

fun fl_abs :: "pyfloat \<Rightarrow> pyfloat" where
  "fl_abs (Fin a) = Fin \<bar>a\<bar>"
| "fl_abs PInf = PInf"
| "fl_abs NInf = PInf"
| "fl_abs NaN = NaN"

text \<open>\<^verbatim>\<open>x > y\<close>: every comparison with \<^verbatim>\<open>nan\<close> is false.\<close>

fun fl_gt :: "pyfloat \<Rightarrow> pyfloat \<Rightarrow> bool" where
  "fl_gt (Fin a) (Fin b) = (a > b)"
| "fl_gt NaN _ = False"
| "fl_gt _ NaN = False"
| "fl_gt PInf y = (y \<noteq> PInf)"
| "fl_gt NInf _ = False"
| "fl_gt (Fin a) PInf = False"
| "fl_gt (Fin a) NInf = True"

fun is_finite :: "pyfloat \<Rightarrow> bool" where
  "is_finite (Fin a) = True"
| "is_finite _ = False"

subsection \<open>The two distribution functions taken from scipy\<close>

text \<open>
  scipy is not part of the repository. \<^verbatim>\<open>scipy.stats.norm.cdf\<close> and
  \<^verbatim>\<open>scipy.stats.chi2.cdf(_, df=1)\<close> are modelled by the functions they compute, both
  expressed with the error function, which is defined by its Maclaurin series
  \<open>erf x = 2/\<surd>\<pi> \<cdot> \<Sum>n. (-1)^n x^(2n+1) / (n! (2n+1))\<close>:
  \<open>\<Phi> z = (1 + erf (z/\<surd>2)) / 2\<close>, and the chi-square distribution with one degree of
  freedom has the distribution function \<open>erf (\<surd>(x/2))\<close> for \<open>x > 0\<close> and \<open>0\<close> below.
\<close>

definition erf_coeff :: "nat \<Rightarrow> real" where
  "erf_coeff n = (- 1) ^ n / (fact n * (2 * real n + 1))"

definition erf_series :: "real \<Rightarrow> real" where
  "erf_series y = (\<Sum>n. erf_coeff n * y ^ n)"

definition erf :: "real \<Rightarrow> real" where
  "erf x = 2 / sqrt pi * (x * erf_series (x * x))"

fun norm_cdf :: "pyfloat \<Rightarrow> pyfloat" where
  "norm_cdf (Fin z) = Fin ((1 + erf (z / sqrt 2)) / 2)"
| "norm_cdf PInf = Fin 1"
| "norm_cdf NInf = Fin 0"
| "norm_cdf NaN = NaN"

fun chi2_cdf_df1 :: "pyfloat \<Rightarrow> pyfloat" where
  "chi2_cdf_df1 (Fin x) = Fin (if x \<le> 0 then 0 else erf (sqrt (x / 2)))"
| "chi2_cdf_df1 PInf = Fin 1"
| "chi2_cdf_df1 NInf = Fin 0"
| "chi2_cdf_df1 NaN = NaN"

section \<open>Descriptive statistics and entropy\<close>

record entropy_metrics =
  shannon_entropy :: pyfloat
  max_entropy :: real
  entropy_ratio :: pyfloat

record statistics = entropy_metrics +
  total_measurements :: nat
  count_0 :: nat
  count_1 :: nat
  probability_0 :: real
  probability_1 :: real

record entropy_result = entropy_metrics +
  quality :: string

text \<open>
  One step of the entropy sum, written twice in each of the two functions:
  \<^verbatim>\<open>if prob > 0: entropy -= prob * np.log2(prob)\<close>.
\<close>

definition entropy_step :: "pyfloat \<Rightarrow> real \<Rightarrow> pyfloat" where
  "entropy_step entropy prob =
     (if prob > 0 then fl_sub entropy (fl_mul (Fin prob) (np_log2 (Fin prob))) else entropy)"

text \<open>\<^verbatim>\<open>QuantumRandomNumberGenerator.get_statistics\<close>, with its guard on an empty list.\<close>

definition get_statistics :: "qrng \<Rightarrow> py_error + statistics" where
  "get_statistics q =
     (if measurements q = [] then Inl ValueError
      else
        let total = length (measurements q);
            c0 = count_list (measurements q) 0;
            c1 = count_list (measurements q) 1
        in
        case py_truediv (real c0) (real total) of
          Inl e \<Rightarrow> Inl e
        | Inr prob_0 \<Rightarrow>
           (case py_truediv (real c1) (real total) of
              Inl e \<Rightarrow> Inl e
            | Inr prob_1 \<Rightarrow>
                (let entropy = entropy_step (entropy_step (Fin 0) prob_0) prob_1
                 in Inr \<lparr>shannon_entropy = entropy, max_entropy = 1,
                         entropy_ratio = np_truediv entropy (Fin 1),
                         total_measurements = total, count_0 = c0, count_1 = c1,
                         probability_0 = prob_0, probability_1 = prob_1\<rparr>)))"

text \<open>\<^verbatim>\<open>RandomnessTests.entropy_test\<close> of \<^verbatim>\<open>utils.py\<close>: the same computation, without a guard.\<close>

definition entropy_test :: "int list \<Rightarrow> py_error + entropy_result" where
  "entropy_test ms =
     (let total = length ms;
          c0 = count_list ms 0;
          c1 = count_list ms 1
      in
      case py_truediv (real c0) (real total) of
        Inl e \<Rightarrow> Inl e
      | Inr prob_0 \<Rightarrow>
         (case py_truediv (real c1) (real total) of
            Inl e \<Rightarrow> Inl e
          | Inr prob_1 \<Rightarrow>
              (let entropy = entropy_step (entropy_step (Fin 0) prob_0) prob_1;
                   ratio = np_truediv entropy (Fin 1)
               in Inr \<lparr>shannon_entropy = entropy, max_entropy = 1, entropy_ratio = ratio,
                       quality = (if fl_gt ratio (Fin (95 / 100)) then ''Excellent''
                                  else if fl_gt ratio (Fin (85 / 100)) then ''Good''
                                  else ''Poor'')\<rparr>)))"

text \<open>
  The entropy as the specification words it: the sum of \<open>- p log\<^sub>2 p\<close> over the outcomes
  whose probability is positive.
\<close>

definition entropy_sum :: "real list \<Rightarrow> real" where
  "entropy_sum ps = (\<Sum>p\<leftarrow>filter (\<lambda>p. p > 0) ps. - (p * log 2 p))"

section \<open>Hypothesis tests of \<^verbatim>\<open>utils.py\<close>\<close>

text \<open>The key \<^verbatim>\<open>'interpretation'\<close> of the result dictionaries is the field \<open>interpretation_label\<close>.\<close>

record test_result =
  p_value :: pyfloat
  passes_test :: bool
  interpretation_label :: string

record chi_result = test_result +
  chi_square_statistic :: real

record runs_result = test_result +
  runs_count :: nat
  expected_runs :: real
  z_score :: pyfloat

text \<open>
  \<^verbatim>\<open>RandomnessTests.chi_square_test\<close>. \<^verbatim>\<open>expected_prob\<close> is a finite float; both
  quotients are Python-level divisions by \<^verbatim>\<open>expected_count\<close>.
\<close>

definition chi_square_test :: "int list \<Rightarrow> real \<Rightarrow> py_error + chi_result" where
  "chi_square_test ms expected_prob =
     (let c0 = count_list ms 0;
          c1 = count_list ms 1;
          total = length ms;
          expected_count = real total * expected_prob
      in
      case py_truediv ((real c0 - expected_count) ^ 2) expected_count of
        Inl e \<Rightarrow> Inl e
      | Inr term_0 \<Rightarrow>
         (case py_truediv ((real c1 - expected_count) ^ 2) expected_count of
            Inl e \<Rightarrow> Inl e
          | Inr term_1 \<Rightarrow>
              (let chi_square = term_0 + term_1;
                   p = fl_sub (Fin 1) (chi2_cdf_df1 (Fin chi_square))
               in Inr \<lparr>p_value = p, passes_test = fl_gt p (Fin (5 / 100)),
                       interpretation_label =
                         (if fl_gt p (Fin (5 / 100)) then ''Random'' else ''Not random''),
                       chi_square_statistic = chi_square\<rparr>)))"

text \<open>
  The loop of \<^verbatim>\<open>runs_test\<close>:
  \<^verbatim>\<open>runs = 1; for i in range(1, len(measurements)): if m[i] != m[i-1]: runs += 1\<close>.
\<close>

definition count_runs :: "int list \<Rightarrow> nat" where
  "count_runs ms =
     fold (\<lambda>i runs. if ms ! i \<noteq> ms ! (i - 1) then runs + 1 else runs) [1..<length ms] 1"

text \<open>
  \<^verbatim>\<open>RandomnessTests.runs_test\<close>. The two quotients for \<^verbatim>\<open>expected_runs\<close> and
  \<^verbatim>\<open>variance\<close> divide Python integers; the quotient for \<^verbatim>\<open>z_score\<close> divides by the
  \<^verbatim>\<open>numpy.float64\<close> that \<^verbatim>\<open>np.sqrt\<close> returns.
\<close>

definition runs_test :: "int list \<Rightarrow> py_error + runs_result" where
  "runs_test ms =
     (let runs = count_runs ms;
          n0 = int (count_list ms 0);
          n1 = int (count_list ms 1);
          n = int (length ms)
      in
      case py_truediv (real_of_int (2 * n0 * n1)) (real_of_int n) of
        Inl e \<Rightarrow> Inl e
      | Inr share \<Rightarrow>
         (let expected = share + 1
          in
          (case py_truediv (real_of_int (2 * n0 * n1 * (2 * n0 * n1 - n)))
                           (real_of_int (n ^ 2 * (n - 1))) of
             Inl e \<Rightarrow> Inl e
           | Inr variance \<Rightarrow>
               (let z = np_truediv (Fin (real runs - expected)) (np_sqrt (Fin variance));
                    p = fl_mul (Fin 2) (fl_sub (Fin 1) (norm_cdf (fl_abs z)))
                in Inr \<lparr>p_value = p, passes_test = fl_gt p (Fin (5 / 100)),
                        interpretation_label =
                          (if fl_gt p (Fin (5 / 100)) then ''Random'' else ''Clustered''),
                        runs_count = runs, expected_runs = expected, z_score = z\<rparr>))))"

text \<open>
  The number of runs as the specification words it: one more than the number of
  adjacent index pairs whose values differ.
\<close>

definition adjacent_changes :: "int list \<Rightarrow> nat" where
  "adjacent_changes s = length (filter (\<lambda>i. s ! i \<noteq> s ! Suc i) [0..<length s - 1])"

text \<open>
  The 32 bits that \<^verbatim>\<open>to_float\<close> reads, in the specification's words: the sequence
  padded on the right with zeros to 32 bits when shorter, cut to its first 32 bits when
  longer.
\<close>

definition first_32_bits :: "int list \<Rightarrow> int list" where
  "first_32_bits s = take 32 (s @ replicate (32 - length s) 0)"

text \<open>
  The number of value changes between neighbours, by recursion on the list; used to reason
  about the index loop of \<^verbatim>\<open>runs_test\<close>.
\<close>

fun changes :: "int list \<Rightarrow> nat" where
  "changes (x # y # r) = (if y \<noteq> x then 1 else 0) + changes (y # r)"
| "changes _ = 0"

text \<open>\<^verbatim>\<open>counts.get(key, 0)\<close> on the dictionary of outcome counts.\<close>

definition counts_get :: "(string \<times> nat) list \<Rightarrow> string \<Rightarrow> nat" where
  "counts_get d k = (case map_of d k of None \<Rightarrow> 0 | Some c \<Rightarrow> c)"

section \<open>Properties of the encoder\<close>

lemma py_str_0: "py_str 0 = ''0''"
  by (simp add: py_str_def str_nat.simps digit_char_def)

lemma py_str_1: "py_str 1 = ''1''"
  by (simp add: py_str_def str_nat.simps digit_char_def)

lemma concat_py_str_bits:
  "bit_sequence s \<Longrightarrow> concat (map py_str s) = map bit_char s"
  by (induction s) (auto simp: bit_sequence_def py_str_0 py_str_1 bit_char_def)

lemma digit_val_bit_char:
  "b = 0 \<or> b = 1 \<Longrightarrow> digit_val (bit_char b) = Some (nat b)"
  by (auto simp: digit_val_def bit_char_def)

lemma big_endian_value_Nil: "big_endian_value [] = 0"
  by (simp add: big_endian_value_def)

lemma big_endian_value_Cons:
  "big_endian_value (b # s) = b * 2 ^ length s + big_endian_value s"
proof -
  have "big_endian_value (b # s) = (\<Sum>i<Suc (length s). (b # s) ! i * 2 ^ (length s - i))"
    by (simp add: big_endian_value_def)
  also have "\<dots> = b * 2 ^ length s + (\<Sum>i<length s. (b # s) ! Suc i * 2 ^ (length s - Suc i))"
    by (simp add: sum.lessThan_Suc_shift del: sum.lessThan_Suc)
  finally show ?thesis by (simp add: big_endian_value_def)
qed

text \<open>The digit loop of \<^verbatim>\<open>int(_, 2)\<close> is Horner's rule for the base-2 value.\<close>

lemma parse_digits_bits:
  "bit_sequence s \<Longrightarrow>
   parse_digits 2 (map bit_char s) acc = Some (acc * 2 ^ length s + big_endian_value s)"
proof (induction s arbitrary: acc)
  case Nil
  then show ?case by (simp add: big_endian_value_Nil)
next
  case (Cons b s)
  then have b: "b = 0 \<or> b = 1" and s: "bit_sequence s"
    by (simp_all add: bit_sequence_def)
  show ?case
    using b Cons.IH [OF s] by (auto simp: digit_val_bit_char big_endian_value_Cons algebra_simps)
qed

lemma py_int_bits:
  assumes "bit_sequence s" "s \<noteq> []"
  shows "py_int 2 (map bit_char s) = Inr (big_endian_value s)"
proof -
  obtain b r where s: "s = b # r" using assms(2) by (cases s) auto
  have "bit_char b \<noteq> CHR ''-''" "bit_char b \<noteq> CHR ''+''"
    by (simp_all add: bit_char_def)
  then show ?thesis
    using parse_digits_bits [OF assms(1), of 0] by (simp add: py_int_def s)
qed

lemma big_endian_value_bounds:
  "bit_sequence s \<Longrightarrow> 0 \<le> big_endian_value s \<and> big_endian_value s < 2 ^ length s"
proof (induction s)
  case Nil
  then show ?case by (simp add: big_endian_value_Nil)
next
  case (Cons b s)
  then have b: "b = 0 \<or> b = 1" and s: "bit_sequence s"
    by (simp_all add: bit_sequence_def)
  show ?case using b Cons.IH [OF s] by (auto simp: big_endian_value_Cons)
qed

lemma first_32_bits_props:
  "bit_sequence s \<Longrightarrow> bit_sequence (first_32_bits s) \<and> length (first_32_bits s) = 32"
  by (auto simp: first_32_bits_def bit_sequence_def list_all_iff dest: in_set_takeD)

lemma take_ljust_bits:
  "take 32 (ljust 32 (CHR ''0'') (map bit_char s)) = map bit_char (first_32_bits s)"
  by (simp add: ljust_def first_32_bits_def take_map bit_char_def)

lemma binary_to_float_bits:
  assumes "bit_sequence s"
  shows "binary_to_float (map bit_char s)
         = Inr (real_of_int (big_endian_value (first_32_bits s)) / 2 ^ 32)"
proof -
  have "first_32_bits s \<noteq> []"
    using first_32_bits_props [OF assms] by auto
  then show ?thesis
    using first_32_bits_props [OF assms]
    by (simp add: binary_to_float_def take_ljust_bits py_int_bits)
qed

lemma to_float_bits:
  assumes "measurements q \<noteq> []" "bit_sequence (measurements q)"
  shows "to_float q
         = Inr (real_of_int (big_endian_value (first_32_bits (measurements q))) / 2 ^ 32)"
proof -
  have "to_float q = binary_to_float (map bit_char (measurements q))"
    using assms
    by (simp add: to_float_def to_binary_string_def binary_to_float_def concat_py_str_bits)
  then show ?thesis by (simp add: binary_to_float_bits assms(2))
qed

lemma first_32_bits_long: "32 \<le> length s \<Longrightarrow> first_32_bits s = take 32 s"
  by (simp add: first_32_bits_def)

text \<open>
  C4. For a non-empty bit sequence, \<^verbatim>\<open>to_float\<close> (and \<^verbatim>\<open>binary_to_float\<close> on the
  sequence's binary string) returns the big-endian value of the first 32 bits, padded on
  the right with zeros when the sequence is shorter and cut when it is longer, divided by
  \<open>2^32\<close>; the result lies in \<open>[0, 1)\<close>; and a second bit sequence of length at least 32
  with the same first 32 bits gives the same float, whatever its later bits are.
\<close>

theorem to_float_first_32_bits:
  assumes "measurements q \<noteq> []" and "bit_sequence (measurements q)"
  shows "to_float q = Inr (real_of_int (big_endian_value (first_32_bits (measurements q))) / 2 ^ 32)
       \<and> binary_to_float (map bit_char (measurements q)) = to_float q
       \<and> 0 \<le> real_of_int (big_endian_value (first_32_bits (measurements q))) / 2 ^ 32
       \<and> real_of_int (big_endian_value (first_32_bits (measurements q))) / 2 ^ 32 < 1
       \<and> (\<forall>q'. bit_sequence (measurements q') \<and> 32 \<le> length (measurements q)
              \<and> 32 \<le> length (measurements q')
              \<and> take 32 (measurements q') = take 32 (measurements q)
            \<longrightarrow> to_float q' = to_float q)"
proof -
  let ?v = "big_endian_value (first_32_bits (measurements q))"
  have b: "0 \<le> ?v \<and> ?v < 2 ^ 32"
    using big_endian_value_bounds [of "first_32_bits (measurements q)"]
      first_32_bits_props [OF assms(2)] by simp
  then have "real_of_int ?v < 2 ^ 32"
    by (metis of_int_less_numeral_power_cancel_iff)
  then have r: "0 \<le> real_of_int ?v / 2 ^ 32 \<and> real_of_int ?v / 2 ^ 32 < 1"
    using b by simp
  have same: "to_float q' = to_float q"
    if "bit_sequence (measurements q')" "32 \<le> length (measurements q)"
       "32 \<le> length (measurements q')" "take 32 (measurements q') = take 32 (measurements q)"
    for q'
  proof -
    have "measurements q' \<noteq> []" using that(3) by auto
    then show ?thesis
      using that by (simp add: to_float_bits assms first_32_bits_long)
  qed
  show ?thesis
    using r same by (simp add: to_float_bits assms binary_to_float_bits)
qed

theorem to_float_first_32_bits_witness:
  "measurements \<lparr>measurements = replicate 32 1 @ [0], counts = []\<rparr> \<noteq> []
   \<and> bit_sequence (measurements \<lparr>measurements = replicate 32 1 @ [0], counts = []\<rparr>)
   \<and> bit_sequence (measurements \<lparr>measurements = replicate 32 1 @ [1], counts = []\<rparr>)
   \<and> to_float \<lparr>measurements = replicate 32 1 @ [0], counts = []\<rparr>
       = Inr (4294967295 / 4294967296)
   \<and> to_float \<lparr>measurements = replicate 32 1 @ [1], counts = []\<rparr>
       = to_float \<lparr>measurements = replicate 32 1 @ [0], counts = []\<rparr>"
proof -
  let ?q = "\<lparr>measurements = replicate 32 1 @ [0], counts = []\<rparr>"
  let ?q' = "\<lparr>measurements = replicate 32 1 @ [1], counts = []\<rparr>"
  have h1: "measurements ?q \<noteq> []" by simp
  have h2: "bit_sequence (measurements ?q)" by (simp add: bit_sequence_def list_all_iff)
  have h3: "bit_sequence (measurements ?q')" by (simp add: bit_sequence_def list_all_iff)
  have v: "big_endian_value (first_32_bits (replicate 32 1 @ [0])) = 4294967295" by code_simp
  note t = to_float_first_32_bits [OF h1 h2]
  have "to_float ?q = Inr (4294967295 / 4294967296)"
    using t v by simp
  moreover have "to_float ?q' = to_float ?q"
    using t h3 by simp
  ultimately show ?thesis using h1 h2 h3 by blast
qed

text \<open>
  C5. For a non-empty bit sequence of length \<open>L\<close>, \<^verbatim>\<open>to_binary_string\<close> returns the digits
  in sequence order, a string of length \<open>L\<close>; reading that string with \<^verbatim>\<open>int(_, 2)\<close> gives
  what \<^verbatim>\<open>to_decimal\<close> returns; and that is the base-2 value of the sequence, first bit
  most significant, as an unbounded integer.
\<close>

theorem to_decimal_roundtrip:
  assumes "measurements q \<noteq> []" and "bit_sequence (measurements q)"
  shows "to_binary_string q = Inr (map bit_char (measurements q))
       \<and> length (map bit_char (measurements q)) = length (measurements q)
       \<and> py_int 2 (map bit_char (measurements q)) = to_decimal q
       \<and> to_decimal q = Inr (big_endian_value (measurements q))"
  using assms by (simp add: to_decimal_def to_binary_string_def concat_py_str_bits py_int_bits)

theorem to_decimal_roundtrip_witness:
  "measurements \<lparr>measurements = [1, 0, 1], counts = []\<rparr> \<noteq> []
   \<and> bit_sequence (measurements \<lparr>measurements = [1, 0, 1], counts = []\<rparr>)
   \<and> to_binary_string \<lparr>measurements = [1, 0, 1], counts = []\<rparr> = Inr ''101''
   \<and> py_int 2 ''101'' = Inr 5
   \<and> to_decimal \<lparr>measurements = [1, 0, 1], counts = []\<rparr> = Inr 5"
  using to_decimal_roundtrip [of "\<lparr>measurements = [1, 0, 1], counts = []\<rparr>"]
  by (simp add: bit_sequence_def bit_char_def big_endian_value_Cons big_endian_value_Nil)

section \<open>Properties of the run count and of the expansion of the counts\<close>

lemma upt_Suc_shift: "[Suc 0..<Suc (Suc n)] = Suc 0 # map Suc [Suc 0..<Suc n]"
  by (subst upt_conv_Cons) (simp_all add: map_Suc_upt del: upt_Suc)

lemma upt_0_shift: "[0..<Suc n] = 0 # map Suc [0..<n]"
  by (subst upt_conv_Cons) (simp_all add: map_Suc_upt del: upt_Suc)

lemma count_runs_fold:
  "fold (\<lambda>i runs. if (x # xs) ! i \<noteq> (x # xs) ! (i - 1) then runs + 1 else runs)
        [Suc 0..<Suc (length xs)] acc = acc + changes (x # xs)"
proof (induction xs arbitrary: x acc)
  case Nil
  then show ?case by simp
next
  case (Cons y r)
  let ?f = "\<lambda>zs i runs. if zs ! i \<noteq> zs ! (i - 1) then runs + 1 else (runs::nat)"
  have cong: "fold (?f (x # y # r) \<circ> Suc) [Suc 0..<Suc (length r)] a
            = fold (?f (y # r)) [Suc 0..<Suc (length r)] a" for a
    by (rule fold_cong) (auto simp: nth_Cons' fun_eq_iff)
  have "fold (?f (x # y # r)) [Suc 0..<Suc (length (y # r))] acc
        = fold (?f (x # y # r) \<circ> Suc) [Suc 0..<Suc (length r)] (?f (x # y # r) (Suc 0) acc)"
    unfolding length_Cons upt_Suc_shift by (simp add: fold_map del: upt_Suc)
  also have "\<dots> = fold (?f (y # r)) [Suc 0..<Suc (length r)] (?f (x # y # r) (Suc 0) acc)"
    by (rule cong)
  also have "\<dots> = ?f (x # y # r) (Suc 0) acc + changes (y # r)"
    using Cons.IH [of y] by simp
  also have "\<dots> = acc + changes (x # y # r)"
    by simp
  finally show ?case by simp
qed

lemma count_runs_changes: "count_runs ms = 1 + changes ms"
proof (cases ms)
  case Nil
  then show ?thesis by (simp add: count_runs_def)
next
  case (Cons x xs)
  then show ?thesis
    using count_runs_fold [of x xs 1] by (simp add: count_runs_def)
qed

lemma adjacent_changes_Cons:
  "adjacent_changes (x # y # r) = (if y \<noteq> x then 1 else 0) + adjacent_changes (y # r)"
proof -
  have "adjacent_changes (x # y # r)
        = length (filter (\<lambda>i. (x # y # r) ! i \<noteq> (x # y # r) ! Suc i) (0 # map Suc [0..<length r]))"
    unfolding adjacent_changes_def using upt_0_shift [of "length r"] by simp
  also have "\<dots> = (if y \<noteq> x then 1 else 0)
                   + length (filter (\<lambda>i. (y # r) ! i \<noteq> (y # r) ! Suc i) [0..<length r])"
    by (auto simp: filter_map comp_def)
  finally show ?thesis by (simp add: adjacent_changes_def)
qed

lemma adjacent_changes_changes: "adjacent_changes s = changes s"
proof (induction s rule: changes.induct)
  case (1 x y r)
  then show ?case by (simp add: adjacent_changes_Cons)
qed (simp_all add: adjacent_changes_def)

lemma count_runs_adjacent: "count_runs s = 1 + adjacent_changes s"
  by (simp add: count_runs_changes adjacent_changes_changes)

lemma changes_replicate: "changes (replicate n x) = 0"
proof (induction n)
  case (Suc n)
  then show ?case by (cases n) simp_all
qed simp

lemma changes_Cons_replicate: "changes (x # replicate n y) \<le> 1"
proof (cases n)
  case (Suc m)
  then show ?thesis using changes_replicate [of "Suc m" y] by simp
qed simp

lemma changes_replicate_append:
  "changes (replicate (Suc a) x @ ys) = changes (x # ys)"
  by (induction a) simp_all

lemma changes_two_blocks: "changes (replicate a x @ replicate b y) \<le> 1"
proof (cases a)
  case 0
  then show ?thesis by (simp add: changes_replicate)
next
  case (Suc m)
  show ?thesis
    unfolding Suc changes_replicate_append by (rule changes_Cons_replicate)
qed

lemma count_runs_two_blocks: "count_runs (replicate a x @ replicate b y) \<le> 2"
  using changes_two_blocks [of a x b y] by (simp add: count_runs_changes)

lemma py_int_10_0: "py_int 10 ''0'' = Inr 0"
  by (simp add: py_int_def digit_val_def)

lemma py_int_10_1: "py_int 10 ''1'' = Inr 1"
  by (simp add: py_int_def digit_val_def)

lemma counts_short:
  assumes "distinct (map fst d)" and "set (map fst d) \<subseteq> {''0'', ''1''}"
  shows "length d \<le> 2"
proof -
  have "length d = card (set (map fst d))"
    using distinct_card [OF assms(1)] by simp
  also have "\<dots> \<le> card {''0'', ''1''}"
    using assms(2) by (intro card_mono) simp_all
  finally show ?thesis by simp
qed

lemma counts_cases:
  assumes "distinct (map fst d)" and "set (map fst d) \<subseteq> {''0'', ''1''}"
  shows "d = [] \<or> (\<exists>c. d = [(''0'', c)]) \<or> (\<exists>c. d = [(''1'', c)])
       \<or> (\<exists>a b. d = [(''0'', a), (''1'', b)]) \<or> (\<exists>a b. d = [(''1'', b), (''0'', a)])"
proof -
  have len: "length d \<le> 2" by (rule counts_short [OF assms])
  show ?thesis
  proof (cases d)
    case Nil
    then show ?thesis by simp
  next
    case (Cons p r)
    obtain k c where p: "p = (k, c)" by (cases p)
    show ?thesis
    proof (cases r)
      case Nil
      then show ?thesis using assms(2) Cons p by auto
    next
      case (Cons p' r')
      obtain k' c' where p': "p' = (k', c')" by (cases p')
      have "r' = []" using len \<open>d = p # r\<close> Cons by simp
      then show ?thesis using assms \<open>d = p # r\<close> Cons p p' by auto
    qed
  qed
qed

text \<open>
  C10. The dictionary of a one-bit register has distinct keys among \<^verbatim>\<open>'0'\<close> and \<^verbatim>\<open>'1'\<close>.
  On such a dictionary \<^verbatim>\<open>generate_random_bits\<close> returns (and stores) a list made of one
  block of the zeros and one block of the ones, in the order of the dictionary's keys: equal
  bits are contiguous and the list has at most two runs. The list is a function of the
  aggregated counts alone, so it carries nothing of the order of the measurements.
\<close>

theorem generate_random_bits_contiguous:
  assumes "distinct (map fst sim_counts)"
    and "set (map fst sim_counts) \<subseteq> {''0'', ''1''}"
  shows "\<exists>ms. generate_random_bits q sim_counts
               = Inr (ms, q\<lparr>measurements := ms, counts := sim_counts\<rparr>)
     \<and> (ms = replicate (counts_get sim_counts ''0'') 0 @ replicate (counts_get sim_counts ''1'') 1
        \<or> ms = replicate (counts_get sim_counts ''1'') 1 @ replicate (counts_get sim_counts ''0'') 0)
     \<and> count_runs ms \<le> 2"
proof -
  let ?a = "counts_get sim_counts ''0''" and ?b = "counts_get sim_counts ''1''"
  have "expand_counts sim_counts [] = Inr (replicate ?a 0 @ replicate ?b 1)
      \<or> expand_counts sim_counts [] = Inr (replicate ?b 1 @ replicate ?a 0)"
    using counts_cases [OF assms]
    by (auto simp: py_int_10_0 py_int_10_1 counts_get_def)
  then show ?thesis
    by (auto simp: generate_random_bits_def count_runs_two_blocks)
qed

theorem generate_random_bits_contiguous_witness:
  "distinct (map fst [(''1'', 3), (''0'', 2::nat)])
   \<and> set (map fst [(''1'', 3), (''0'', 2::nat)]) \<subseteq> {''0'', ''1''}
   \<and> generate_random_bits init_qrng [(''1'', 3), (''0'', 2)]
       = Inr ([1, 1, 1, 0, 0], \<lparr>measurements = [1, 1, 1, 0, 0], counts = [(''1'', 3), (''0'', 2)]\<rparr>)
   \<and> count_runs [1, 1, 1, 0, 0] \<le> 2"
proof -
  have h1: "distinct (map fst [(''1'', 3), (''0'', 2::nat)])" by simp
  have h2: "set (map fst [(''1'', 3), (''0'', 2::nat)]) \<subseteq> {''0'', ''1''}" by simp
  have g: "generate_random_bits init_qrng [(''1'', 3), (''0'', 2)]
       = Inr ([1, 1, 1, 0, 0], \<lparr>measurements = [1, 1, 1, 0, 0], counts = [(''1'', 3), (''0'', 2)]\<rparr>)"
    by (simp add: generate_random_bits_def init_qrng_def py_int_10_0 py_int_10_1 numeral_2_eq_2 numeral_3_eq_3)
  obtain ms where "generate_random_bits init_qrng [(''1'', 3), (''0'', 2)]
       = Inr (ms, init_qrng\<lparr>measurements := ms, counts := [(''1'', 3), (''0'', 2)]\<rparr>)"
      and "count_runs ms \<le> 2"
    using generate_random_bits_contiguous [OF h1 h2, of init_qrng] by blast
  with g have "count_runs [1, 1, 1, 0, 0] \<le> 2" by simp
  with h1 h2 g show ?thesis by blast
qed

text \<open>
  C9. On an empty sequence the five operations of \<^verbatim>\<open>QuantumRandomNumberGenerator\<close> raise
  the \<^verbatim>\<open>ValueError\<close> of their guard (the specification's \<^verbatim>\<open>EmptySequenceError\<close>), but
  \<^verbatim>\<open>entropy_test\<close>, which repeats the computation of \<^verbatim>\<open>get_statistics\<close> without the
  guard, raises \<^verbatim>\<open>ZeroDivisionError\<close> from \<^verbatim>\<open>count_0 / total\<close>.
\<close>

theorem empty_sequence_errors:
  "to_binary_string (q\<lparr>measurements := []\<rparr>) = Inl ValueError
   \<and> to_decimal (q\<lparr>measurements := []\<rparr>) = Inl ValueError
   \<and> to_hex (q\<lparr>measurements := []\<rparr>) = Inl ValueError
   \<and> to_float (q\<lparr>measurements := []\<rparr>) = Inl ValueError
   \<and> get_statistics (q\<lparr>measurements := []\<rparr>) = Inl ValueError
   \<and> entropy_test [] = Inl ZeroDivisionError"
  by (simp add: to_binary_string_def to_decimal_def to_hex_def to_float_def get_statistics_def
      entropy_test_def py_truediv_def)

section \<open>Properties of the runs test and of the chi-square test on degenerate input\<close>

lemma bit_counts_sum: "bit_sequence s \<Longrightarrow> count_list s 0 + count_list s 1 = length s"
  by (induction s) (auto simp: bit_sequence_def)

lemma no_ones_replicate:
  assumes "bit_sequence s" "count_list s 1 = 0"
  shows "s = replicate (length s) 0"
proof -
  have "1 \<notin> set s" using assms(2) by (simp add: count_list_0_iff)
  then have "\<forall>x\<in>set s. x = 0"
    using assms(1) by (auto simp: bit_sequence_def list_all_iff)
  then show ?thesis by (simp add: replicate_length_same)
qed

lemma no_zeros_replicate:
  assumes "bit_sequence s" "count_list s 0 = 0"
  shows "s = replicate (length s) 1"
proof -
  have "0 \<notin> set s" using assms(2) by (simp add: count_list_0_iff)
  then have "\<forall>x\<in>set s. x = 1"
    using assms(1) by (auto simp: bit_sequence_def list_all_iff)
  then show ?thesis by (simp add: replicate_length_same)
qed

lemma single_valued_runs:
  assumes "bit_sequence s" "count_list s 0 = 0 \<or> count_list s 1 = 0"
  shows "count_runs s = 1"
proof -
  have "s = replicate (length s) 0 \<or> s = replicate (length s) 1"
    using assms no_ones_replicate no_zeros_replicate by blast
  then have "changes s = 0"
    by (metis changes_replicate)
  then show ?thesis by (simp add: count_runs_changes)
qed

lemma runs_test_short: "length s < 2 \<Longrightarrow> runs_test s = Inl ZeroDivisionError"
proof (cases s)
  case Nil
  then show ?thesis by (simp add: runs_test_def py_truediv_def)
next
  case (Cons x r)
  assume "length s < 2"
  then have "r = []" using Cons by simp
  then show ?thesis using Cons by (simp add: runs_test_def py_truediv_def Let_def)
qed

lemma runs_test_single_valued:
  assumes "2 \<le> length s" "bit_sequence s" "count_list s 0 = 0 \<or> count_list s 1 = 0"
  shows "runs_test s = Inr \<lparr>p_value = NaN, passes_test = False, interpretation_label = ''Clustered'',
                          runs_count = 1, expected_runs = 1, z_score = NaN\<rparr>"
proof -
  have r: "count_runs s = 1" by (rule single_valued_runs [OF assms(2,3)])
  have n: "real (length s) \<noteq> 0" "real (length s) \<noteq> 1" "length s \<noteq> 0"
    using assms(1) by auto
  from assms(3) show ?thesis
  proof
    assume "count_list s 0 = 0"
    then show ?thesis
      using n by (simp add: runs_test_def py_truediv_def Let_def r signed_inf_def fl_sub_def)
  next
    assume "count_list s 1 = 0"
    then show ?thesis
      using n by (simp add: runs_test_def py_truediv_def Let_def r signed_inf_def fl_sub_def)
  qed
qed

text \<open>
  C1, as the code has it. \<^verbatim>\<open>runs_test\<close> raises \<^verbatim>\<open>ZeroDivisionError\<close> on a sequence
  shorter than 2 (from \<^verbatim>\<open>(2*n0*n1)/n\<close> when it is empty, from the variance when it has one
  element). On a single-valued bit sequence of length at least 2 it raises nothing: the
  variance is 0, the z-score is the quotient of 0.0 by \<^verbatim>\<open>np.sqrt(0.0)\<close>, which is
  \<^verbatim>\<open>nan\<close>, the p-value is \<^verbatim>\<open>nan\<close>, and the verdict is \<^verbatim>\<open>passes_test = False\<close>,
  \<^verbatim>\<open>'Clustered'\<close>.
\<close>

theorem runs_test_degenerate:
  "(length s < 2 \<longrightarrow> runs_test s = Inl ZeroDivisionError)
   \<and> (2 \<le> length s \<and> bit_sequence s \<and> (count_list s 0 = 0 \<or> count_list s 1 = 0) \<longrightarrow>
        runs_test s = Inr \<lparr>p_value = NaN, passes_test = False,
                           interpretation_label = ''Clustered'',
                           runs_count = 1, expected_runs = 1, z_score = NaN\<rparr>)"
  using runs_test_short runs_test_single_valued by blast

theorem runs_test_all_zero_counterexample:
  "runs_test [0, 0] = Inr \<lparr>p_value = NaN, passes_test = False,
                           interpretation_label = ''Clustered'',
                           runs_count = 1, expected_runs = 1, z_score = NaN\<rparr>"
  by (simp add: runs_test_def py_truediv_def Let_def count_runs_def signed_inf_def fl_sub_def)

theorem runs_test_degenerate_witness:
  "length ([] :: int list) < 2 \<and> runs_test [] = Inl ZeroDivisionError
   \<and> length [1 :: int] < 2 \<and> runs_test [1] = Inl ZeroDivisionError
   \<and> 2 \<le> length [1, 1, 1 :: int] \<and> bit_sequence [1, 1, 1] \<and> count_list [1, 1, 1 :: int] 0 = 0
   \<and> runs_test [1, 1, 1] = Inr \<lparr>p_value = NaN, passes_test = False,
                           interpretation_label = ''Clustered'',
                           runs_count = 1, expected_runs = 1, z_score = NaN\<rparr>"
  using runs_test_degenerate [of "[]"] runs_test_degenerate [of "[1]"]
    runs_test_degenerate [of "[1, 1, 1]"]
  by (simp add: bit_sequence_def)

text \<open>
  C8, as the code has it. \<^verbatim>\<open>chi_square_test\<close> raises exactly when
  \<^verbatim>\<open>expected_count = total * expected_prob\<close> is zero, that is on an empty sequence or with
  \<^verbatim>\<open>expected_prob = 0\<close>, and what it raises is \<^verbatim>\<open>ZeroDivisionError\<close>. With
  \<^verbatim>\<open>expected_prob = 1\<close> on a non-empty sequence both classes are compared with
  \<^verbatim>\<open>total\<close>, nothing is divided by zero and a result is returned.
\<close>

theorem chi_square_test_zero_division:
  "(chi_square_test s p = Inl ZeroDivisionError \<longleftrightarrow> s = [] \<or> p = 0)
   \<and> chi_square_test s p \<noteq> Inl ValueError
   \<and> (s \<noteq> [] \<and> p = 1 \<longrightarrow> \<not> isl (chi_square_test s p))"
  by (auto simp: chi_square_test_def py_truediv_def Let_def)

theorem chi_square_test_prob_one_counterexample:
  "\<not> isl (chi_square_test [0, 1] 1)
   \<and> chi_square_statistic (projr (chi_square_test [0, 1] 1)) = 1"
  by (simp add: chi_square_test_def py_truediv_def Let_def)

theorem chi_square_test_zero_division_witness:
  "chi_square_test [] (1 / 2) = Inl ZeroDivisionError
   \<and> chi_square_test [0, 1] 0 = Inl ZeroDivisionError
   \<and> [0, 1 :: int] \<noteq> [] \<and> \<not> isl (chi_square_test [0, 1] 1)"
  using chi_square_test_zero_division [of "[]" "1 / 2"]
    chi_square_test_zero_division [of "[0, 1]" 0] chi_square_test_zero_division [of "[0, 1]" 1]
  by simp

section \<open>Properties of the entropy\<close>

lemma entropy_steps_value:
  "entropy_step (entropy_step (Fin 0) p0) p1 = Fin (entropy_sum [p0, p1])"
  by (simp add: entropy_step_def entropy_sum_def fl_sub_def)

lemma unguarded_zero_term: "fl_mul (Fin 0) (np_log2 (Fin 0)) = NaN"
  by (simp add: signed_inf_def)

lemma entropy_test_value:
  assumes "s \<noteq> []"
  shows "entropy_test s =
     Inr \<lparr>shannon_entropy =
            Fin (entropy_sum [real (count_list s 0) / real (length s),
                              real (count_list s 1) / real (length s)]),
          max_entropy = 1,
          entropy_ratio =
            Fin (entropy_sum [real (count_list s 0) / real (length s),
                              real (count_list s 1) / real (length s)]),
          quality =
            (if entropy_sum [real (count_list s 0) / real (length s),
                             real (count_list s 1) / real (length s)] > 95 / 100
             then ''Excellent''
             else if entropy_sum [real (count_list s 0) / real (length s),
                                  real (count_list s 1) / real (length s)] > 85 / 100
             then ''Good'' else ''Poor'')\<rparr>"
  using assms by (simp add: entropy_test_def py_truediv_def Let_def entropy_steps_value)

lemma get_statistics_value:
  assumes "measurements q \<noteq> []"
  shows "get_statistics q =
     Inr \<lparr>shannon_entropy =
            Fin (entropy_sum [real (count_list (measurements q) 0) / real (length (measurements q)),
                              real (count_list (measurements q) 1) / real (length (measurements q))]),
          max_entropy = 1,
          entropy_ratio =
            Fin (entropy_sum [real (count_list (measurements q) 0) / real (length (measurements q)),
                              real (count_list (measurements q) 1) / real (length (measurements q))]),
          total_measurements = length (measurements q),
          count_0 = count_list (measurements q) 0,
          count_1 = count_list (measurements q) 1,
          probability_0 = real (count_list (measurements q) 0) / real (length (measurements q)),
          probability_1 = real (count_list (measurements q) 1) / real (length (measurements q))\<rparr>"
  using assms by (simp add: get_statistics_def py_truediv_def Let_def entropy_steps_value)

lemma single_valued_entropy:
  assumes "s \<noteq> []" "bit_sequence s" "count_list s 0 = 0 \<or> count_list s 1 = 0"
  shows "entropy_sum [real (count_list s 0) / real (length s),
                       real (count_list s 1) / real (length s)] = 0"
proof -
  have "count_list s 0 + count_list s 1 = length s" by (rule bit_counts_sum [OF assms(2)])
  then have "(count_list s 0 = 0 \<and> count_list s 1 = length s)
           \<or> (count_list s 1 = 0 \<and> count_list s 0 = length s)"
    using assms(3) by auto
  then show ?thesis
    using assms(1) by (auto simp: entropy_sum_def)
qed

text \<open>
  C6. On a non-empty sequence \<^verbatim>\<open>entropy_test\<close> and \<^verbatim>\<open>get_statistics\<close> return, and their
  entropy and entropy ratio are the finite number \<open>- \<Sum> p log\<^sub>2 p\<close> taken over the
  outcomes of positive probability only: the step for a probability 0 leaves the sum as it
  is, where the unguarded product \<open>0 \<cdot> log\<^sub>2 0\<close> would be \<^verbatim>\<open>nan\<close>. On an all-zero or
  all-one bit sequence the entropy is 0.
\<close>

theorem shannon_entropy_guarded:
  assumes "s \<noteq> []"
  shows "\<not> isl (entropy_test s)
       \<and> shannon_entropy (projr (entropy_test s))
           = Fin (entropy_sum [real (count_list s 0) / real (length s),
                               real (count_list s 1) / real (length s)])
       \<and> entropy_ratio (projr (entropy_test s)) = shannon_entropy (projr (entropy_test s))
       \<and> \<not> isl (get_statistics \<lparr>measurements = s, counts = c\<rparr>)
       \<and> shannon_entropy (projr (get_statistics \<lparr>measurements = s, counts = c\<rparr>))
           = shannon_entropy (projr (entropy_test s))
       \<and> entropy_ratio (projr (get_statistics \<lparr>measurements = s, counts = c\<rparr>))
           = shannon_entropy (projr (entropy_test s))
       \<and> is_finite (shannon_entropy (projr (entropy_test s)))
       \<and> entropy_step e 0 = e
       \<and> fl_mul (Fin 0) (np_log2 (Fin 0)) = NaN
       \<and> (bit_sequence s \<and> (count_list s 0 = 0 \<or> count_list s 1 = 0)
            \<longrightarrow> shannon_entropy (projr (entropy_test s)) = Fin 0)"
  using assms single_valued_entropy [of s]
  by (simp add: entropy_test_value get_statistics_value entropy_step_def signed_inf_def)

theorem shannon_entropy_guarded_witness:
  "[0, 0, 0 :: int] \<noteq> [] \<and> bit_sequence [0, 0, 0] \<and> count_list [0, 0, 0 :: int] 1 = 0
   \<and> \<not> isl (entropy_test [0, 0, 0])
   \<and> shannon_entropy (projr (entropy_test [0, 0, 0])) = Fin 0
   \<and> shannon_entropy (projr (get_statistics \<lparr>measurements = [0, 0, 0], counts = []\<rparr>)) = Fin 0"
  using shannon_entropy_guarded [of "[0, 0, 0]" "[]" "Fin 0"]
  by (simp add: bit_sequence_def entropy_sum_def)

section \<open>The error function\<close>

text \<open>
  A bound on \<open>\<pi>\<close> from Machin's formula, the derivative \<open>2/\<surd>\<pi> \<cdot> exp (- x\<^sup>2)\<close> of the
  series that defines \<open>erf\<close>, hence its monotonicity, and a lower bound at \<open>8/5\<close> from
  the partial sums of the alternating series.
\<close>

lemma arctan_le_self:
  fixes x :: real
  assumes "0 \<le> x"
  shows "arctan x \<le> x"
proof -
  have "0 - arctan 0 \<le> x - arctan x"
  proof (rule DERIV_nonneg_imp_nondecreasing [OF assms])
    fix t :: real
    have "((\<lambda>t. t - arctan t) has_real_derivative 1 - inverse (1 + t\<^sup>2)) (at t)"
      by (auto intro!: derivative_eq_intros)
    moreover have "0 \<le> 1 - inverse (1 + t\<^sup>2)"
      by (simp add: inverse_le_1_iff)
    ultimately show "\<exists>y. ((\<lambda>t. t - arctan t) has_real_derivative y) (at t) \<and> 0 \<le> y"
      by blast
  qed
  then show ?thesis by simp
qed

lemma pi_less_16_5: "pi < 16 / 5"
proof -
  have a: "arctan (1 / 5) \<le> 1 / 5" by (rule arctan_le_self) simp
  have b: "0 < arctan (1 / 239)" by (simp add: zero_less_arctan_iff)
  have "pi / 4 = 4 * arctan (1 / 5) - arctan (1 / 239)" by (rule machin)
  with a b show ?thesis by linarith
qed

lemma two_over_sqrt_pi: "1118 / 1000 < 2 / sqrt pi"
proof -
  have "sqrt pi < sqrt (16 / 5)"
    using pi_less_16_5 by simp
  also have "\<dots> < 2000 / 1118"
    by (rule real_less_lsqrt) (simp_all add: power2_eq_square)
  finally have "sqrt pi < 2000 / 1118" .
  moreover have "0 < sqrt pi" by simp
  ultimately show ?thesis by (simp add: field_simps)
qed

lemma erf_coeff_bound: "norm (erf_coeff n * y ^ n) \<le> norm (y ^ n /\<^sub>R fact n)"
proof -
  have "norm (erf_coeff n * y ^ n) = \<bar>y\<bar> ^ n / (fact n * (2 * real n + 1))"
    by (simp add: erf_coeff_def abs_mult power_abs)
  also have "\<dots> \<le> \<bar>y\<bar> ^ n / (fact n * 1)"
    by (intro divide_left_mono mult_left_mono mult_pos_pos) simp_all
  also have "\<dots> = norm (y ^ n /\<^sub>R fact n)"
    by (simp add: power_abs abs_mult divide_inverse mult.commute)
  finally show ?thesis .
qed

lemma summable_erf_series: "summable (\<lambda>n. erf_coeff n * y ^ n)"
  by (rule summable_comparison_test' [OF summable_norm_exp [of y], of 0])
     (rule erf_coeff_bound)

lemma erf_series_deriv:
  "(erf_series has_real_derivative (\<Sum>n. diffs erf_coeff n * y ^ n)) (at y)"
  unfolding erf_series_def [abs_def]
  by (rule termdiffs_strong_converges_everywhere) (rule summable_erf_series)


lemma erf_series_ode:
  "erf_series y + 2 * y * (\<Sum>n. diffs erf_coeff n * y ^ n) = exp (- y)"
proof -
  let ?D = "\<Sum>n. diffs erf_coeff n * y ^ n"
  let ?h = "\<lambda>n. 2 * real n * erf_coeff n * y ^ n"
  have A: "(\<lambda>n. erf_coeff n * y ^ n) sums erf_series y"
    unfolding erf_series_def by (rule summable_sums [OF summable_erf_series])
  have "summable (\<lambda>n. diffs erf_coeff n * y ^ n)"
    by (rule termdiff_converges_all) (rule summable_erf_series)
  then have "(\<lambda>n. diffs erf_coeff n * y ^ n) sums ?D"
    by (rule summable_sums)
  then have "(\<lambda>n. 2 * y * (diffs erf_coeff n * y ^ n)) sums (2 * y * ?D)"
    by (rule sums_mult)
  moreover have "2 * y * (diffs erf_coeff n * y ^ n) = ?h (Suc n)" for n
    by (simp add: diffs_def algebra_simps)
  ultimately have "(\<lambda>n. ?h (Suc n)) sums (2 * y * ?D)"
    by simp
  then have B: "?h sums (2 * y * ?D)"
    by (rule sums_Suc_imp [rotated]) simp
  have "(\<lambda>n. erf_coeff n * y ^ n + ?h n) sums (erf_series y + 2 * y * ?D)"
    by (rule sums_add [OF A B])
  moreover have "erf_coeff n * y ^ n + ?h n = (- y) ^ n /\<^sub>R fact n" for n
  proof -
    have "erf_coeff n * y ^ n + ?h n = (2 * real n + 1) * erf_coeff n * y ^ n"
      by (simp add: algebra_simps)
    also have "(2 * real n + 1) * erf_coeff n = (- 1) ^ n / fact n"
    proof -
      have nz: "2 * real n + 1 \<noteq> 0" by (simp add: add_nonneg_eq_0_iff)
      have "(2 * real n + 1) * ((- 1) ^ n / (fact n * (2 * real n + 1)))
            = ((2 * real n + 1) * (- 1) ^ n) / ((2 * real n + 1) * fact n)"
        by (simp add: mult.commute)
      also have "\<dots> = (- 1) ^ n / fact n"
        by (rule nonzero_mult_divide_mult_cancel_left [OF nz])
      finally show ?thesis unfolding erf_coeff_def .
    qed
    also have "(- 1) ^ n / fact n * y ^ n = (- y) ^ n /\<^sub>R fact n"
      by (simp add: power_minus [of y] divide_inverse mult_ac)
    finally show ?thesis .
  qed
  ultimately have "(\<lambda>n. (- y) ^ n /\<^sub>R fact n) sums (erf_series y + 2 * y * ?D)"
    by simp
  then show ?thesis
    using exp_converges [of "- y"] by (rule sums_unique2)
qed

lemma erf_deriv: "(erf has_real_derivative 2 / sqrt pi * exp (- (x * x))) (at x)"
proof -
  let ?D = "\<lambda>y. \<Sum>n. diffs erf_coeff n * y ^ n"
  have sq: "((\<lambda>x. x * x) has_real_derivative x + x) (at x)"
    by (auto intro!: derivative_eq_intros)
  have g: "((\<lambda>x. erf_series (x * x)) has_real_derivative ?D (x * x) * (x + x)) (at x)"
    by (rule DERIV_chain2 [OF erf_series_deriv sq])
  have "((\<lambda>x. x * erf_series (x * x)) has_real_derivative
          1 * erf_series (x * x) + ?D (x * x) * (x + x) * x) (at x)"
    by (rule DERIV_mult [OF DERIV_ident g])
  moreover have "1 * erf_series (x * x) + ?D (x * x) * (x + x) * x = exp (- (x * x))"
    using erf_series_ode [of "x * x"] by (simp add: algebra_simps)
  ultimately have "((\<lambda>x. x * erf_series (x * x)) has_real_derivative exp (- (x * x))) (at x)"
    by simp
  then show ?thesis
    unfolding erf_def [abs_def] by (rule DERIV_cmult)
qed

lemma erf_strict_mono:
  assumes "a < b"
  shows "erf a < erf b"
  using assms
proof (rule DERIV_pos_imp_increasing)
  fix x :: real
  have "0 < 2 / sqrt pi * exp (- (x * x))" by simp
  then show "\<exists>y. (erf has_real_derivative y) (at x) \<and> 0 < y"
    using erf_deriv by blast
qed

lemma erf_mono: "a \<le> b \<Longrightarrow> erf a \<le> erf b"
  using erf_strict_mono [of a b] by (cases "a = b") auto

lemma erf_0: "erf 0 = 0"
  by (simp add: erf_def)

lemma erf_term_decreasing:
  fixes y :: real
  assumes "0 \<le> y" "y \<le> 3"
  shows "y ^ Suc n / (fact (Suc n) * (2 * real (Suc n) + 1)) \<le> y ^ n / (fact n * (2 * real n + 1))"
proof -
  have "real n \<le> 2 * (real n * real n)"
  proof (cases n)
    case (Suc m)
    have "1 \<le> real n" using Suc by simp
    then have "real n * 1 \<le> real n * real n" by (intro mult_left_mono) simp_all
    then show ?thesis by simp
  qed simp
  then have "3 * (2 * real n + 1) \<le> (real n + 1) * (2 * real n + 3)"
    by (simp add: algebra_simps)
  moreover have "y * (2 * real n + 1) \<le> 3 * (2 * real n + 1)"
    using assms(2) by (intro mult_right_mono) simp_all
  ultimately have key: "y * (2 * real n + 1) \<le> (real n + 1) * (2 * real n + 3)"
    by linarith
  have B: "0 < fact n * (2 * real n + 1)"
    by (intro mult_pos_pos) (simp_all add: add_pos_nonneg)
  have B': "0 < fact (Suc n) * (2 * real (Suc n) + 1)"
    by (intro mult_pos_pos) (simp_all add: add_pos_nonneg)
  have "y ^ Suc n * (fact n * (2 * real n + 1)) = (y ^ n * fact n) * (y * (2 * real n + 1))"
    by simp
  also have "\<dots> \<le> (y ^ n * fact n) * ((real n + 1) * (2 * real n + 3))"
    using key assms(1) by (intro mult_left_mono) simp_all
  also have "\<dots> = y ^ n * (fact (Suc n) * (2 * real (Suc n) + 1))"
    by (simp add: algebra_simps)
  finally have "y ^ Suc n * (fact n * (2 * real n + 1))
                \<le> y ^ n * (fact (Suc n) * (2 * real (Suc n) + 1))" .
  then have "y ^ Suc n \<le> y ^ n * (fact (Suc n) * (2 * real (Suc n) + 1)) / (fact n * (2 * real n + 1))"
    by (rule mult_imp_le_div_pos [OF B])
  then have "y ^ Suc n \<le> y ^ n / (fact n * (2 * real n + 1)) * (fact (Suc n) * (2 * real (Suc n) + 1))"
    by simp
  then show ?thesis
    by (rule mult_imp_div_pos_le [OF B'])
qed

lemma erf_series_lower:
  assumes "0 \<le> y" "y \<le> 3"
  shows "(\<Sum>i<2 * n. erf_coeff i * y ^ i) \<le> erf_series y"
proof -
  let ?a = "\<lambda>n. y ^ n / (fact n * (2 * real n + 1))"
  have eq: "erf_coeff i * y ^ i = (- 1) ^ i * ?a i" for i
    by (simp add: erf_coeff_def)
  have "(\<lambda>n. \<bar>erf_coeff n * y ^ n\<bar>) \<longlonglongrightarrow> 0"
    by (rule tendsto_rabs_zero [OF summable_LIMSEQ_zero [OF summable_erf_series]])
  moreover have "\<bar>erf_coeff n * y ^ n\<bar> = ?a n" for n
    using assms(1) by (simp add: erf_coeff_def abs_mult power_abs)
  ultimately have lim: "?a \<longlonglongrightarrow> 0" by simp
  have nonneg: "0 \<le> ?a n" for n using assms(1) by simp
  have mono: "?a (Suc n) \<le> ?a n" for n
    by (rule erf_term_decreasing [OF assms])
  have "(\<Sum>i<2 * n. (- 1) ^ i * ?a i) \<le> (\<Sum>i. (- 1) ^ i * ?a i)"
    by (rule summable_Leibniz'(2) [OF lim nonneg mono])
  then show ?thesis by (simp only: eq [symmetric] erf_series_def)
qed

lemma erf_series_partial:
  "(\<Sum>i<2 * 4. erf_coeff i * (64 / 25) ^ i) \<ge> (5386 / 10000 :: real)"
  by (simp add: erf_coeff_def eval_nat_numeral lessThan_Suc)

lemma erf_8_5: "95 / 100 < erf (8 / 5)"
proof -
  have s: "5386 / 10000 \<le> erf_series (64 / 25)"
    using erf_series_partial erf_series_lower [of "64 / 25" 4] by simp
  have "95 / 100 < (1118 / 1000) * (8 / 5 * (5386 / 10000 :: real))" by simp
  also have "\<dots> \<le> (1118 / 1000) * (8 / 5 * erf_series (64 / 25))"
    using s by simp
  also have "\<dots> \<le> 2 / sqrt pi * (8 / 5 * erf_series (64 / 25))"
  proof (rule mult_right_mono)
    show "1118 / 1000 \<le> 2 / sqrt pi" using two_over_sqrt_pi by simp
    show "0 \<le> 8 / 5 * erf_series (64 / 25)" using s by simp
  qed
  also have "\<dots> = erf (8 / 5)" by (simp add: erf_def)
  finally show ?thesis .
qed

lemma erf_large: "8 / 5 \<le> x \<Longrightarrow> 95 / 100 < erf x"
  using erf_8_5 erf_mono [of "8 / 5" x] by simp

lemma chi2_upper_tail_small:
  assumes "6 \<le> x"
  shows "\<not> fl_gt (fl_sub (Fin 1) (chi2_cdf_df1 (Fin x))) (Fin (5 / 100))"
proof -
  have "(8 / 5)\<^sup>2 \<le> x / 2" using assms by (simp add: power2_eq_square)
  then have "8 / 5 \<le> sqrt (x / 2)" by (rule real_le_rsqrt)
  then have "95 / 100 < erf (sqrt (x / 2))" by (rule erf_large)
  then show ?thesis using assms by (simp add: fl_sub_def)
qed

lemma norm_two_sided_small:
  assumes "(8 / 5)\<^sup>2 * 2 \<le> z\<^sup>2"
  shows "\<not> fl_gt (fl_mul (Fin 2) (fl_sub (Fin 1) (norm_cdf (fl_abs (Fin z))))) (Fin (5 / 100))"
proof -
  have "(8 / 5)\<^sup>2 \<le> (\<bar>z\<bar> / sqrt 2)\<^sup>2"
    using assms by (simp add: power_divide)
  then have "8 / 5 \<le> \<bar>z\<bar> / sqrt 2"
    by (rule power2_le_imp_le) simp
  then have "95 / 100 < erf (\<bar>z\<bar> / sqrt 2)" by (rule erf_large)
  then show ?thesis by (simp add: fl_sub_def)
qed

section \<open>Properties of the chi-square test and of the runs test\<close>

lemma chi_square_test_value:
  assumes "ms \<noteq> []" "expected_prob \<noteq> 0"
  shows "chi_square_test ms expected_prob =
     Inr \<lparr>p_value = fl_sub (Fin 1) (chi2_cdf_df1 (Fin
              ((real (count_list ms 0) - real (length ms) * expected_prob)\<^sup>2
                 / (real (length ms) * expected_prob)
               + (real (count_list ms 1) - real (length ms) * expected_prob)\<^sup>2
                 / (real (length ms) * expected_prob)))),
          passes_test = fl_gt (fl_sub (Fin 1) (chi2_cdf_df1 (Fin
              ((real (count_list ms 0) - real (length ms) * expected_prob)\<^sup>2
                 / (real (length ms) * expected_prob)
               + (real (count_list ms 1) - real (length ms) * expected_prob)\<^sup>2
                 / (real (length ms) * expected_prob))))) (Fin (5 / 100)),
          interpretation_label =
            (if fl_gt (fl_sub (Fin 1) (chi2_cdf_df1 (Fin
              ((real (count_list ms 0) - real (length ms) * expected_prob)\<^sup>2
                 / (real (length ms) * expected_prob)
               + (real (count_list ms 1) - real (length ms) * expected_prob)\<^sup>2
                 / (real (length ms) * expected_prob))))) (Fin (5 / 100))
             then ''Random'' else ''Not random''),
          chi_square_statistic =
              (real (count_list ms 0) - real (length ms) * expected_prob)\<^sup>2
                 / (real (length ms) * expected_prob)
               + (real (count_list ms 1) - real (length ms) * expected_prob)\<^sup>2
                 / (real (length ms) * expected_prob)\<rparr>"
  using assms by (simp add: chi_square_test_def py_truediv_def Let_def)

lemma chi_square_all_zeros:
  assumes "length ms = 100" "count_list ms 0 = 100" "count_list ms 1 = 0"
  shows "chi_square_statistic (projr (chi_square_test ms (1 / 2))) = 100
       \<and> \<not> passes_test (projr (chi_square_test ms (1 / 2)))
       \<and> interpretation_label (projr (chi_square_test ms (1 / 2))) = ''Not random''"
proof -
  have ne: "ms \<noteq> []" using assms(1) by auto
  have "\<not> fl_gt (fl_sub (Fin 1) (chi2_cdf_df1 (Fin 100))) (Fin (5 / 100))"
    by (rule chi2_upper_tail_small) simp
  then show ?thesis
    by (simp add: chi_square_test_value [OF ne] assms)
qed

lemma chi_square_balanced:
  assumes "length ms = 100" "count_list ms 0 = 50" "count_list ms 1 = 50"
  shows "chi_square_statistic (projr (chi_square_test ms (1 / 2))) = 0
       \<and> p_value (projr (chi_square_test ms (1 / 2))) = Fin 1
       \<and> passes_test (projr (chi_square_test ms (1 / 2)))
       \<and> interpretation_label (projr (chi_square_test ms (1 / 2))) = ''Random''"
proof -
  have ne: "ms \<noteq> []" using assms(1) by auto
  show ?thesis
    by (simp add: chi_square_test_value [OF ne] assms fl_sub_def)
qed

text \<open>
  C2. On a non-empty sequence and an expected probability strictly between 0 and 1,
  \<^verbatim>\<open>chi_square_test\<close> returns; its statistic is
  \<open>(count_0 - total\<cdot>p)\<^sup>2/(total\<cdot>p) + (count_1 - total\<cdot>p)\<^sup>2/(total\<cdot>p)\<close>, its p-value is the
  upper tail of the chi-square distribution with one degree of freedom at the statistic,
  and \<^verbatim>\<open>passes_test\<close> is \<^verbatim>\<open>p_value > 0.05\<close>. A sequence of 100 zeros and no ones with
  \<open>p = 0.5\<close> gives the statistic 100 and does not pass; a sequence of 50 zeros and 50 ones
  gives the statistic 0, the p-value 1 and passes.
\<close>

theorem chi_square_test_statistic:
  "(ms \<noteq> [] \<and> 0 < expected_prob \<and> expected_prob < 1 \<longrightarrow>
      \<not> isl (chi_square_test ms expected_prob)
    \<and> chi_square_statistic (projr (chi_square_test ms expected_prob))
        = (real (count_list ms 0) - real (length ms) * expected_prob)\<^sup>2
            / (real (length ms) * expected_prob)
          + (real (count_list ms 1) - real (length ms) * expected_prob)\<^sup>2
            / (real (length ms) * expected_prob)
    \<and> p_value (projr (chi_square_test ms expected_prob))
        = fl_sub (Fin 1) (chi2_cdf_df1
            (Fin (chi_square_statistic (projr (chi_square_test ms expected_prob)))))
    \<and> passes_test (projr (chi_square_test ms expected_prob))
        = fl_gt (p_value (projr (chi_square_test ms expected_prob))) (Fin (5 / 100)))
   \<and> (length ms = 100 \<and> count_list ms 0 = 100 \<and> count_list ms 1 = 0 \<longrightarrow>
        chi_square_statistic (projr (chi_square_test ms (1 / 2))) = 100
      \<and> \<not> passes_test (projr (chi_square_test ms (1 / 2))))
   \<and> (length ms = 100 \<and> count_list ms 0 = 50 \<and> count_list ms 1 = 50 \<longrightarrow>
        chi_square_statistic (projr (chi_square_test ms (1 / 2))) = 0
      \<and> p_value (projr (chi_square_test ms (1 / 2))) = Fin 1
      \<and> passes_test (projr (chi_square_test ms (1 / 2))))"
proof -
  have general: "\<not> isl (chi_square_test ms expected_prob)
    \<and> chi_square_statistic (projr (chi_square_test ms expected_prob))
        = (real (count_list ms 0) - real (length ms) * expected_prob)\<^sup>2
            / (real (length ms) * expected_prob)
          + (real (count_list ms 1) - real (length ms) * expected_prob)\<^sup>2
            / (real (length ms) * expected_prob)
    \<and> p_value (projr (chi_square_test ms expected_prob))
        = fl_sub (Fin 1) (chi2_cdf_df1
            (Fin (chi_square_statistic (projr (chi_square_test ms expected_prob)))))
    \<and> passes_test (projr (chi_square_test ms expected_prob))
        = fl_gt (p_value (projr (chi_square_test ms expected_prob))) (Fin (5 / 100))"
    if "ms \<noteq> []" "0 < expected_prob"
    using that by (simp add: chi_square_test_value)
  show ?thesis
    using general chi_square_all_zeros chi_square_balanced by blast
qed

theorem chi_square_test_statistic_witness:
  "replicate 100 (0 :: int) \<noteq> [] \<and> (0 :: real) < 1 / 2 \<and> (1 / 2 :: real) < 1
   \<and> length (replicate 100 (0 :: int)) = 100
   \<and> count_list (replicate 100 (0 :: int)) 0 = 100 \<and> count_list (replicate 100 (0 :: int)) 1 = 0
   \<and> chi_square_statistic (projr (chi_square_test (replicate 100 0) (1 / 2))) = 100
   \<and> \<not> passes_test (projr (chi_square_test (replicate 100 0) (1 / 2)))
   \<and> length (replicate 50 (0 :: int) @ replicate 50 1) = 100
   \<and> count_list (replicate 50 (0 :: int) @ replicate 50 1) 0 = 50
   \<and> count_list (replicate 50 (0 :: int) @ replicate 50 1) 1 = 50
   \<and> chi_square_statistic (projr (chi_square_test (replicate 50 0 @ replicate 50 1) (1 / 2))) = 0
   \<and> p_value (projr (chi_square_test (replicate 50 0 @ replicate 50 1) (1 / 2))) = Fin 1
   \<and> passes_test (projr (chi_square_test (replicate 50 0 @ replicate 50 1) (1 / 2)))"
proof -
  have c: "count_list (replicate n x) y = (if x = y then n else 0)" for n and x y :: int
    by (induction n) auto
  have z: "length (replicate 100 (0 :: int)) = 100
      \<and> count_list (replicate 100 (0 :: int)) 0 = 100 \<and> count_list (replicate 100 (0 :: int)) 1 = 0"
    by (simp add: c)
  have b: "length (replicate 50 (0 :: int) @ replicate 50 1) = 100
      \<and> count_list (replicate 50 (0 :: int) @ replicate 50 1) 0 = 50
      \<and> count_list (replicate 50 (0 :: int) @ replicate 50 1) 1 = 50"
    by (simp add: c)
  have "chi_square_statistic (projr (chi_square_test (replicate 100 0) (1 / 2))) = 100
      \<and> \<not> passes_test (projr (chi_square_test (replicate 100 0) (1 / 2)))"
    using chi_square_test_statistic [of "replicate 100 0" "1 / 2"] z by blast
  moreover have
    "chi_square_statistic (projr (chi_square_test (replicate 50 0 @ replicate 50 1) (1 / 2))) = 0
      \<and> p_value (projr (chi_square_test (replicate 50 0 @ replicate 50 1) (1 / 2))) = Fin 1
      \<and> passes_test (projr (chi_square_test (replicate 50 0 @ replicate 50 1) (1 / 2)))"
    using chi_square_test_statistic [of "replicate 50 0 @ replicate 50 1" "1 / 2"] b by blast
  moreover have "replicate 100 (0 :: int) \<noteq> [] \<and> (0 :: real) < 1 / 2 \<and> (1 / 2 :: real) < 1"
    by simp
  ultimately show ?thesis using z b by blast
qed

lemma runs_test_value:
  assumes "2 \<le> length ms"
  shows "\<not> isl (runs_test ms)
       \<and> runs_count (projr (runs_test ms)) = count_runs ms
       \<and> expected_runs (projr (runs_test ms))
           = real (2 * count_list ms 0 * count_list ms 1) / real (length ms) + 1"
proof -
  have n: "real (length ms) \<noteq> 0" "real (length ms) \<noteq> 1" "length ms \<noteq> 0"
    using assms by auto
  show ?thesis
    using n by (simp add: runs_test_def py_truediv_def Let_def)
qed

lemma runs_test_alternating:
  "runs_test [0, 1, 0, 1, 0, 1, 0, 1] =
     Inr \<lparr>p_value = Fin (2 * (1 - (1 + erf (3 / sqrt (12 / 7) / sqrt 2)) / 2)),
          passes_test = False, interpretation_label = ''Clustered'',
          runs_count = 8, expected_runs = 5, z_score = Fin (3 / sqrt (12 / 7))\<rparr>"
proof -
  have r: "count_runs [0, 1, 0, 1, 0, 1, 0, 1] = 8"
    by (simp add: count_runs_changes)
  have "(8 / 5)\<^sup>2 * 2 \<le> (3 / sqrt (12 / 7))\<^sup>2"
    by (simp add: power_divide power2_eq_square)
  then have np: "\<not> fl_gt (fl_mul (Fin 2) (fl_sub (Fin 1)
                     (norm_cdf (fl_abs (Fin (3 / sqrt (12 / 7))))))) (Fin (5 / 100))"
    by (rule norm_two_sided_small)
  have v: "(2 * 4 * 4 * (2 * 4 * 4 - 8)) / (8\<^sup>2 * (8 - 1)) = (12 / 7 :: real)"
    by simp
  show ?thesis
    using np by (simp add: runs_test_def py_truediv_def Let_def r fl_sub_def)
qed

text \<open>
  C3, as the code has it. The loop of \<^verbatim>\<open>runs_test\<close> counts one more than the number of
  adjacent index pairs whose values differ, so at least 1; on a sequence of length at least
  2 the test returns that count and \<^verbatim>\<open>expected_runs = (2\<cdot>n0\<cdot>n1)/n + 1\<close>. On
  \<^verbatim>\<open>[0,1,0,1,0,1,0,1]\<close> it returns 8 runs, \<open>n0 = n1 = 4\<close> and 5 expected runs, and the
  two-sided test rejects the excess of runs: \<open>z = 3/\<surd>(12/7)\<close>, the p-value is below 0.05,
  \<^verbatim>\<open>passes_test\<close> is \<^verbatim>\<open>False\<close> and the label is \<^verbatim>\<open>'Clustered'\<close>.
\<close>

theorem runs_test_runs_and_expectation:
  "count_runs ms = 1 + adjacent_changes ms \<and> 1 \<le> count_runs ms
   \<and> (2 \<le> length ms \<longrightarrow>
        \<not> isl (runs_test ms)
      \<and> runs_count (projr (runs_test ms)) = count_runs ms
      \<and> expected_runs (projr (runs_test ms))
          = real (2 * count_list ms 0 * count_list ms 1) / real (length ms) + 1)
   \<and> count_list [0, 1, 0, 1, 0, 1, 0, 1 :: int] 0 = 4
   \<and> count_list [0, 1, 0, 1, 0, 1, 0, 1 :: int] 1 = 4
   \<and> runs_count (projr (runs_test [0, 1, 0, 1, 0, 1, 0, 1])) = 8
   \<and> expected_runs (projr (runs_test [0, 1, 0, 1, 0, 1, 0, 1])) = 5
   \<and> passes_test (projr (runs_test [0, 1, 0, 1, 0, 1, 0, 1])) = False
   \<and> interpretation_label (projr (runs_test [0, 1, 0, 1, 0, 1, 0, 1])) = ''Clustered''"
  using runs_test_value [of ms]
  by (simp add: count_runs_adjacent runs_test_alternating)

theorem runs_test_alternating_counterexample:
  "\<not> passes_test (projr (runs_test [0, 1, 0, 1, 0, 1, 0, 1]))"
  by (simp add: runs_test_alternating)

theorem runs_test_runs_and_expectation_witness:
  "2 \<le> length [0, 0, 1, 1, 0 :: int]
   \<and> \<not> isl (runs_test [0, 0, 1, 1, 0])
   \<and> runs_count (projr (runs_test [0, 0, 1, 1, 0])) = 3
   \<and> expected_runs (projr (runs_test [0, 0, 1, 1, 0])) = 17 / 5"
  using runs_test_runs_and_expectation [of "[0, 0, 1, 1, 0]"]
  by (simp add: adjacent_changes_changes)

end
